theory Spec2Isabelle
  imports Complex_Main "HOL-Library.Multiset" "HOL-Library.Log_Nat" "HOL-Library.Sublist"
begin

section \<open>Conventions\<close>

text \<open>
  The development embeds \<^verbatim>\<open>server/services/openai.ts\<close> (the sampler, the prompt
  rendering, the reasoning caller and the batch ranking caller) and the
  \<^verbatim>\<open>/api/analyze\<close> route of the route registration unit.

  A JavaScript string is a sequence of UTF-16 code units and \<^verbatim>\<open>.length\<close> counts
  them. It is modelled as a \<^typ>\<open>string\<close>, one \<^typ>\<open>char\<close> per code unit, which
  covers the strings whose code units are below 256. A JavaScript number is an IEEE-754
  double. Integers below \<open>2^53\<close> are doubles, and sums, products and remainders of
  such integers that stay below \<open>2^53\<close> are exact, so they are modelled as \<^typ>\<open>nat\<close>
  or \<^typ>\<open>int\<close>. The only inexact operations of the sampler are the division and the
  multiplication of the random draw; they are modelled with the rounding written out.
\<close>

section \<open>Double-precision rounding\<close>

text \<open>Round to the nearest integer, ties to the even one.\<close>

definition round_even :: "real \<Rightarrow> int" where
  "round_even y =
     (let f = \<lfloor>y\<rfloor>; d = y - of_int f
      in if d < 1 / 2 then f
         else if 1 / 2 < d then f + 1
         else if even f then f else f + 1)"

definition pow2 :: "int \<Rightarrow> real" where
  "pow2 e = (if 0 \<le> e then 2 ^ nat e else 1 / 2 ^ nat (- e))"

text \<open>
  The binary exponent of a positive number \<open>x\<close>: the \<open>e\<close> with
  \<open>2^e \<le> x < 2^(e+1)\<close>. From 1 on it is the bit length of the integer part less
  one; below 1 it is read off the reciprocal.
\<close>

definition binade :: "real \<Rightarrow> int" where
  "binade x = (if 1 \<le> x then bitlen \<lfloor>x\<rfloor> - 1 else - bitlen (\<lceil>1 / x\<rceil> - 1))"

text \<open>
  The double nearest to a real number (round to nearest, ties to even, 53 significant
  bits), for values in the normal range; the values of the sampler lie between
  \<open>2^-18\<close> and \<open>2^53\<close>.
\<close>

definition fl :: "real \<Rightarrow> real" where
  "fl x =
     (if x = 0 then 0
      else let u = pow2 (binade \<bar>x\<bar> - 52)
           in of_int (round_even (x / u)) * u)"

section \<open>The seeded shuffle\<close>

text \<open>
  \<^verbatim>\<open>seededRandom\<close> of \<^verbatim>\<open>shuffleArray\<close>: it updates the generator state and returns
  \<^verbatim>\<open>rng / 233280\<close>. The state stays an exact integer: it is below 233280 after the
  first call, and a seed below \<open>10^6\<close> keeps \<^verbatim>\<open>rng * 9301 + 49297\<close> below \<open>2^53\<close>.
\<close>

definition seededRandom :: "nat \<Rightarrow> nat \<times> real" where
  "seededRandom rng =
     (let rng' = (rng * 9301 + 49297) mod 233280
      in (rng', fl (of_nat rng' / 233280)))"

text \<open>
  The loop \<^verbatim>\<open>for (let i = shuffled.length - 1; i > 0; i--)\<close> with its body
  \<^verbatim>\<open>j = Math.floor(seededRandom() * (i + 1))\<close> and the swap of positions \<open>i\<close> and
  \<open>j\<close>. The first argument is the loop variable \<open>i\<close>. The position \<open>j\<close> is
  never beyond \<open>i\<close> (lemma \<open>seededRandom_index\<close> below), so the swap stays inside
  the array.
\<close>

fun shuffleLoop :: "nat \<Rightarrow> nat \<Rightarrow> 'a list \<Rightarrow> 'a list" where
  "shuffleLoop 0 rng shuffled = shuffled"
| "shuffleLoop (Suc k) rng shuffled =
     (let i = Suc k;
          (rng', r) = seededRandom rng;
          j = nat \<lfloor>fl (r * of_nat (i + 1))\<rfloor>
      in shuffleLoop k rng' (shuffled[i := shuffled ! j, j := shuffled ! i]))"

text \<open>
  \<^verbatim>\<open>shuffleArray(array, seed?)\<close>. Without a seed the generator starts from
  \<^verbatim>\<open>Math.floor(Math.random() * 1000000)\<close>; that ambient value is the argument
  \<open>entropy\<close>.
\<close>

definition shuffleArray :: "'a list \<Rightarrow> nat option \<Rightarrow> nat \<Rightarrow> 'a list" where
  "shuffleArray array seed entropy =
     (let rng = (case seed of Some s \<Rightarrow> s | None \<Rightarrow> entropy)
      in shuffleLoop (length array - 1) rng array)"


section \<open>JavaScript library functions\<close>

text \<open>
  \<^verbatim>\<open>Array.prototype.slice(start, end)\<close>, also \<^verbatim>\<open>String.prototype.slice\<close>: a negative
  argument counts from the end, and both are clamped to the length.
\<close>

definition slice :: "'a list \<Rightarrow> int \<Rightarrow> int \<Rightarrow> 'a list" where
  "slice xs start fin =
     (let len = int (length xs);
          k = (if start < 0 then max (len + start) 0 else min start len);
          final = (if fin < 0 then max (len + fin) 0 else min fin len)
      in take (nat (final - k)) (drop (nat k) xs))"

text \<open>\<^verbatim>\<open>slice(start)\<close>, the end left out.\<close>

definition sliceFrom :: "'a list \<Rightarrow> int \<Rightarrow> 'a list" where
  "sliceFrom xs start = slice xs start (int (length xs))"

text \<open>\<^verbatim>\<open>Array.prototype.join(separator)\<close> on an array of strings.\<close>

fun join :: "string \<Rightarrow> string list \<Rightarrow> string" where
  "join sep [] = []"
| "join sep [x] = x"
| "join sep (x # y # ys) = x @ sep @ join sep (y # ys)"

text \<open>The decimal rendering of a non-negative integer in a template literal.\<close>

definition digit :: "nat \<Rightarrow> char" where
  "digit d = char_of (48 + d)"

fun toString :: "nat \<Rightarrow> string" where
  "toString n = (if n < 10 then [digit n] else toString (n div 10) @ [digit (n mod 10)])"

declare toString.simps [simp del]

text \<open>
  The first occurrence of a search string: the text before it and the text after it.
\<close>

fun splitFirst :: "string \<Rightarrow> string \<Rightarrow> (string \<times> string) option" where
  "splitFirst pat [] = (if pat = [] then Some ([], []) else None)"
| "splitFirst pat (c # s) =
     (if prefix pat (c # s) then Some ([], drop (length pat) (c # s))
      else map_option (\<lambda>(b, a). (c # b, a)) (splitFirst pat s))"

text \<open>
  \<^verbatim>\<open>GetSubstitution\<close> of the language standard, for a string pattern (no captures):
  in the replacement text \<^verbatim>\<open>$$\<close> stands for a dollar sign, \<^verbatim>\<open>$&\<close> for the matched
  text, \<^verbatim>\<open>$`\<close> for the text before the match and \<^verbatim>\<open>$'\<close> for the text after it;
  any other \<^verbatim>\<open>$\<close> is literal. The arguments are the matched text, the text before
  it, the text after it and the replacement.
\<close>

fun getSubstitution :: "string \<Rightarrow> string \<Rightarrow> string \<Rightarrow> string \<Rightarrow> string" where
  "getSubstitution m b a [] = []"
| "getSubstitution m b a [c] = [c]"
| "getSubstitution m b a (c # d # rest) =
     (if c = CHR ''$'' then
        (if d = CHR ''$'' then CHR ''$'' # getSubstitution m b a rest
         else if d = CHR ''&'' then m @ getSubstitution m b a rest
         else if d = CHR 0x60 then b @ getSubstitution m b a rest
         else if d = CHR 0x27 then a @ getSubstitution m b a rest
         else c # getSubstitution m b a (d # rest))
      else c # getSubstitution m b a (d # rest))"

text \<open>
  \<^verbatim>\<open>String.prototype.replace(searchValue, replaceValue)\<close> with two strings: only the
  first occurrence is replaced, and the replacement is expanded by
  \<^verbatim>\<open>GetSubstitution\<close>.
\<close>

definition replace :: "string \<Rightarrow> string \<Rightarrow> string \<Rightarrow> string" where
  "replace s searchValue replaceValue =
     (case splitFirst searchValue s of
        None \<Rightarrow> s
      | Some (b, a) \<Rightarrow> b @ getSubstitution searchValue b a replaceValue @ a)"

section \<open>The sampler of \<^verbatim>\<open>analyzeDatasetGapsStreaming\<close>\<close>

record indexed_trace =
  trace :: string
  originalIndex :: nat

text \<open>
  \<^verbatim>\<open>traces.map((trace, index) => ({ trace, originalIndex: index + 1 }))\<close>
\<close>

definition tracesWithIndexes :: "string list \<Rightarrow> indexed_trace list" where
  "tracesWithIndexes traces =
     map (\<lambda>(trace, index). \<lparr>trace = trace, originalIndex = index + 1\<rparr>)
       (zip traces [0..<length traces])"

text \<open>\<^verbatim>\<open>traces.join('').length % 100000\<close>\<close>

definition contentSeed :: "string list \<Rightarrow> nat" where
  "contentSeed traces = length (join [] traces) mod 100000"

text \<open>
  The value \<^verbatim>\<open>selectedTraces\<close> of \<^verbatim>\<open>analyzeDatasetGapsStreaming\<close>, from the list
  \<^verbatim>\<open>traces\<close> of the non-blank lines of the upload. With no trace the function returns
  early with \<^verbatim>\<open>selectedTraces: []\<close>. The bound \<^verbatim>\<open>maxTracesForAnalysis\<close> is a
  number that the route passes on from the request body unchecked, so it is an
  \<^typ>\<open>int\<close>.
\<close>

definition selectedTraces :: "nat \<Rightarrow> string list \<Rightarrow> int \<Rightarrow> indexed_trace list" where
  "selectedTraces entropy traces maxTracesForAnalysis =
     (if length traces = 0 then []
      else let shuffledTraces =
                 shuffleArray (tracesWithIndexes traces) (Some (contentSeed traces)) entropy
           in slice shuffledTraces 0 (min maxTracesForAnalysis (int (length traces))))"


section \<open>Prompt rendering\<close>

datatype role = User | Assistant

record chat_message =
  mtype :: role
  content :: string

definition nl :: string where
  "nl = [CHR 0x0A]"

text \<open>\<^verbatim>\<open>customPrompt || DEFAULT_PROMPTS.analysis\<close>: an absent or empty custom prompt
  gives the default one. The default templates are a parameter.\<close>

definition orDefault :: "string option \<Rightarrow> string \<Rightarrow> string" where
  "orDefault customPrompt dflt =
     (case customPrompt of
        None \<Rightarrow> dflt
      | Some p \<Rightarrow> if p = [] then dflt else p)"

text \<open>\<^verbatim>\<open>`${msg.type === 'user' ? 'User' : 'AI'}: ${msg.content}`\<close>\<close>

definition formatMessage :: "chat_message \<Rightarrow> string" where
  "formatMessage msg = (if mtype msg = User then ''User'' else ''AI'') @ '': '' @ content msg"

text \<open>The conversation context of the analysis prompt.\<close>

definition analysisConversation :: "chat_message list option \<Rightarrow> string \<Rightarrow> string" where
  "analysisConversation chatHistory userQuery =
     (case chatHistory of
        None \<Rightarrow> ''User: '' @ userQuery
      | Some h \<Rightarrow>
          if length h > 0
          then join (nl @ nl) (map formatMessage h) @ nl @ nl @ ''User: '' @ userQuery
          else ''User: '' @ userQuery)"

text \<open>\<^verbatim>\<open>`${originalIndex}: ${trace}`\<close>, a line of the traces section.\<close>

definition traceLine :: "indexed_trace \<Rightarrow> string" where
  "traceLine t = toString (originalIndex t) @ '': '' @ trace t"

text \<open>
  The traces section of the analysis prompt. Its closing note starts with a pictograph
  outside the modelled character range; the pictograph is the parameter \<open>mark\<close>.
\<close>

definition tracesSection :: "string \<Rightarrow> indexed_trace list \<Rightarrow> nat \<Rightarrow> string" where
  "tracesSection mark selected totalCount =
     join nl (map traceLine selected) @ nl @ nl @ mark @
     '' FOCUS: These traces are your PRIMARY data source ('' @ toString (length selected) @
     '' traces selected from '' @ toString totalCount @ '' total).''"

text \<open>
  \<^verbatim>\<open>analysisPrompt.replace('{conversation}', ...).replace('{traces}', ...)
  .replace('{datasets}', ...)\<close>
\<close>

definition finalPrompt :: "string \<Rightarrow> string \<Rightarrow> string \<Rightarrow> string \<Rightarrow> string" where
  "finalPrompt analysisPrompt conversationContext tracesSec datasetsSection =
     replace
       (replace
          (replace analysisPrompt ''{conversation}'' conversationContext)
          ''{traces}'' tracesSec)
       ''{datasets}'' datasetsSection"

text \<open>
  The prompt of the analysis request, from the sample and the datasets section (the
  rendering of the uploaded datasets is a parameter).
\<close>

definition analysisRequest ::
  "string \<Rightarrow> string \<Rightarrow> string \<Rightarrow> string option \<Rightarrow> chat_message list option \<Rightarrow> string \<Rightarrow>
   indexed_trace list \<Rightarrow> nat \<Rightarrow> string" where
  "analysisRequest dflt mark datasetsSection customPrompt chatHistory userQuery selected
     totalCount =
     finalPrompt (orDefault customPrompt dflt)
       (analysisConversation chatHistory userQuery)
       (tracesSection mark selected totalCount)
       datasetsSection"

text \<open>
  The conversation context of the reasoning prompt, with
  \<^verbatim>\<open>maxConversationLength = 2000\<close>.
\<close>

definition reasoningFullConversation ::
  "chat_message list option \<Rightarrow> string \<Rightarrow> string \<Rightarrow> string" where
  "reasoningFullConversation chatHistory userQuery aiResponse =
     (case chatHistory of
        None \<Rightarrow> ''User: '' @ userQuery @ nl @ nl @ ''AI: '' @ aiResponse
      | Some h \<Rightarrow>
          if length h > 0
          then join (nl @ nl) (map formatMessage h) @
               nl @ nl @ ''User: '' @ userQuery @ nl @ nl @ ''AI: '' @ aiResponse
          else ''User: '' @ userQuery @ nl @ nl @ ''AI: '' @ aiResponse)"

definition reasoningConversation ::
  "chat_message list option \<Rightarrow> string \<Rightarrow> string \<Rightarrow> string" where
  "reasoningConversation chatHistory userQuery aiResponse =
     (let conversationContext = reasoningFullConversation chatHistory userQuery aiResponse
      in if length conversationContext > 2000
         then sliceFrom conversationContext (- 2000)
         else conversationContext)"

text \<open>The trace lines of the reasoning prompt, with \<^verbatim>\<open>maxTraceLength = 200\<close>.\<close>

definition truncatedTrace :: "string \<Rightarrow> string" where
  "truncatedTrace tr = (if length tr > 200 then slice tr 0 200 @ ''...'' else tr)"

definition optimizedTraces :: "indexed_trace list \<Rightarrow> string" where
  "optimizedTraces ts =
     join nl (map (\<lambda>t. toString (originalIndex t) @ '': '' @ truncatedTrace (trace t)) ts)"

text \<open>
  \<^verbatim>\<open>reasoningPrompt.replace('{conversation}', ...).replace('{traces}', ...)\<close>
\<close>

definition reasoningPrompt :: "string \<Rightarrow> string \<Rightarrow> string \<Rightarrow> string" where
  "reasoningPrompt template conversationContext optimized =
     replace (replace template ''{conversation}'' conversationContext) ''{traces}'' optimized"

section \<open>The reasoning caller \<^verbatim>\<open>selectRelevantTraces\<close>\<close>

text \<open>
  The sample of the reasoning stage: the pre-selected traces when there are any,
  otherwise the fallback over \<^verbatim>\<open>allTraces.slice(0, 250)\<close>.
\<close>

definition fallbackTraces :: "nat \<Rightarrow> string list \<Rightarrow> indexed_trace list" where
  "fallbackTraces entropy allTraces =
     (let limitedTraces = slice allTraces 0 250
      in shuffleArray (tracesWithIndexes limitedTraces) (Some (contentSeed limitedTraces))
           entropy)"

definition tracesForReasoning ::
  "nat \<Rightarrow> string list \<Rightarrow> indexed_trace list option \<Rightarrow> indexed_trace list" where
  "tracesForReasoning entropy allTraces preSelectedTraces =
     (case preSelectedTraces of
        None \<Rightarrow> fallbackTraces entropy allTraces
      | Some pre \<Rightarrow> if length pre > 0 then pre else fallbackTraces entropy allTraces)"

text \<open>
  What the completion call gives back. The call rejects (a network or provider error,
  an abort, a response without choices), or it resolves without a function call, or
  with a function call whose \<^verbatim>\<open>arguments\<close> text \<^verbatim>\<open>JSON.parse\<close> rejects or parses.
  The parsed payload is modelled at the types of the function schema the request
  declares, every property optional and every array item possibly \<^verbatim>\<open>null\<close>.
\<close>

datatype js_error = TypeError | SyntaxError | APIError

datatype 'a parse_result = Unparsable | Parsed 'a

datatype 'a completion = Rejected | NoFunctionCall | FunctionCall "'a parse_result"

record reasoning_item =
  line_number :: "real option"
  item_tags :: "string list option"

record tagged_trace =
  trace_text :: string
  tags :: "string list"

text \<open>
  The body of \<^verbatim>\<open>selectedTraces.map((item) => ...)\<close>: the line number is looked up
  with \<^verbatim>\<open>tracesForReasoning.find(t => t.originalIndex === lineNumber)\<close>.
\<close>

definition mapItem :: "indexed_trace list \<Rightarrow> reasoning_item \<Rightarrow> tagged_trace" where
  "mapItem sample item =
     (let lineNumber = line_number item;
          matchingTrace = find (\<lambda>t. Some (of_nat (originalIndex t)) = lineNumber) sample
      in \<lparr>trace_text = (case matchingTrace of Some t \<Rightarrow> trace t | None \<Rightarrow> []),
          tags = (case item_tags item of Some ts \<Rightarrow> ts | None \<Rightarrow> [])\<rparr>)"

text \<open>The \<^verbatim>\<open>map\<close> itself; reading a property of a \<^verbatim>\<open>null\<close> item throws.\<close>

fun mapSelected ::
  "indexed_trace list \<Rightarrow> reasoning_item option list \<Rightarrow> js_error + tagged_trace list" where
  "mapSelected sample [] = Inr []"
| "mapSelected sample (None # items) = Inl TypeError"
| "mapSelected sample (Some item # items) =
     (case mapSelected sample items of
        Inl e \<Rightarrow> Inl e
      | Inr rest \<Rightarrow> Inr (mapItem sample item # rest))"

text \<open>
  Step 5 of the function: \<^verbatim>\<open>tracesWithTags\<close> starts empty and is assigned only when
  the payload parses, has a non-empty \<^verbatim>\<open>selected_traces\<close> and the mapping finishes;
  the inner \<^verbatim>\<open>catch\<close> only logs.
\<close>

definition processResponse ::
  "indexed_trace list \<Rightarrow> reasoning_item option list option parse_result \<Rightarrow> tagged_trace list"
  where
  "processResponse sample parsed =
     (case parsed of
        Unparsable \<Rightarrow> []
      | Parsed None \<Rightarrow> []
      | Parsed (Some items) \<Rightarrow>
          if length items > 0
          then (case mapSelected sample items of Inl e \<Rightarrow> [] | Inr mapped \<Rightarrow> mapped)
          else [])"

text \<open>
  The prompt of the reasoning request (step 3 of the function), and
  \<^verbatim>\<open>selectRelevantTraces\<close>. The arguments \<open>entropy\<close>, \<open>dflt\<close> (the default
  reasoning template) and \<open>provider\<close> (the completion call, from the prompt to its
  outcome) are the environment; \<open>aborted\<close> is \<^verbatim>\<open>abortSignal?.aborted\<close> at the
  check before the call. The result is a sum so that a propagated exception would be a
  value; the outer \<^verbatim>\<open>catch\<close> returns the empty list.
\<close>

definition reasoningRequest ::
  "string \<Rightarrow> string option \<Rightarrow> chat_message list option \<Rightarrow> string \<Rightarrow> string \<Rightarrow>
   indexed_trace list \<Rightarrow> string" where
  "reasoningRequest dflt customPrompt chatHistory userQuery aiResponse sample =
     reasoningPrompt (orDefault customPrompt dflt)
       (reasoningConversation chatHistory userQuery aiResponse)
       (optimizedTraces sample)"

definition selectRelevantTraces ::
  "nat \<Rightarrow> string \<Rightarrow> (string \<Rightarrow> reasoning_item option list option completion) \<Rightarrow>
   string list \<Rightarrow> string \<Rightarrow> string \<Rightarrow> string option \<Rightarrow> chat_message list option \<Rightarrow>
   bool \<Rightarrow> indexed_trace list option \<Rightarrow> js_error + tagged_trace list" where
  "selectRelevantTraces entropy dflt provider allTraces userQuery aiResponse customPrompt
     chatHistory aborted preSelectedTraces =
     (let sample = tracesForReasoning entropy allTraces preSelectedTraces;
          prompt = reasoningRequest dflt customPrompt chatHistory userQuery aiResponse sample;
          attempt =
            (if aborted then Inr []
             else case provider prompt of
                    Rejected \<Rightarrow> Inl APIError
                  | NoFunctionCall \<Rightarrow> Inr []
                  | FunctionCall parsed \<Rightarrow> Inr (processResponse sample parsed))
      in case attempt of
           Inl error \<Rightarrow> Inr []
         | Inr tracesWithTags \<Rightarrow> Inr tracesWithTags)"

section \<open>The batch ranking caller \<^verbatim>\<open>runBatchJobAnalysis\<close>\<close>
















section \<open>The route \<^verbatim>\<open>/api/analyze\<close>\<close>

text \<open>
  The route is run for one request, and what it does to the response stream is
  recorded in order, together with the client's disconnect. The handlers of
  \<^verbatim>\<open>close\<close> and \<^verbatim>\<open>aborted\<close> can only run while the route awaits: during the
  analysis completion call, during the pause after a chunk, or during the reasoning
  call. The point of the disconnect is a parameter.
\<close>

datatype event =
    Heartbeat
  | Content string
  | StreamingComplete
  | ReasoningStart
  | Complete "tagged_trace list"
  | Error string

datatype action = Write event | Disconnect | End

datatype disconnect_point =
  Never | DuringAnalysisCall | AfterChunk nat | DuringReasoningCall

text \<open>The analysis completion call resolves with the answer or rejects with a message.\<close>

datatype analysis_outcome = Answered string | Failed string

text \<open>
  The two flags the handlers set: \<^verbatim>\<open>clientDisconnected\<close> and the abort signal. The
  flags of the request and the response that the route reads beside them
  (\<^verbatim>\<open>req.aborted\<close>, \<^verbatim>\<open>res.destroyed\<close>, \<^verbatim>\<open>res.closed\<close>) change with the same
  event and are represented by \<^verbatim>\<open>clientDisconnected\<close>.
\<close>

record connection =
  clientDisconnected :: bool
  aborted :: bool

definition onClose :: "connection \<Rightarrow> connection" where
  "onClose c = c\<lparr>clientDisconnected := True, aborted := True\<rparr>"

text \<open>\<^verbatim>\<open>fullResponse.split(' ')\<close>\<close>

fun split :: "char \<Rightarrow> string \<Rightarrow> string list" where
  "split sep [] = [[]]"
| "split sep (x # xs) =
     (if x = sep then [] # split sep xs
      else case split sep xs of [] \<Rightarrow> [[x]] | w # ws \<Rightarrow> (x # w) # ws)"

text \<open>
  The word loop of \<^verbatim>\<open>analyzeDatasetGapsStreaming\<close> with the route's \<^verbatim>\<open>onChunk\<close>:
  the loop stops when the signal is aborted, the callback writes nothing when
  \<^verbatim>\<open>clientDisconnected\<close> is set, and the pause after word \<open>i\<close> is where a
  disconnect at \<open>AfterChunk i\<close> arrives.
\<close>

fun streamWords ::
  "disconnect_point \<Rightarrow> nat \<Rightarrow> connection \<Rightarrow> string list \<Rightarrow> action list \<times> connection" where
  "streamWords d i c [] = ([], c)"
| "streamWords d i c (word # ws) =
     (if aborted c then ([], c)
      else let chunk = (if i = 0 then word else CHR '' '' # word);
               written = (if clientDisconnected c then [] else [Write (Content chunk)]);
               (arrived, c') = (if d = AfterChunk i then ([Disconnect], onClose c) else ([], c));
               (later, c'') = streamWords d (Suc i) c' ws
           in (written @ arrived @ later, c''))"

text \<open>
  The route after the analysis stage has returned: the two markers, the reasoning
  stage unless the client is gone, the final event and the end of the stream.
  \<open>reasoned\<close> is what \<^verbatim>\<open>selectRelevantTraces\<close> resolves with.
\<close>

definition afterAnalysis ::
  "disconnect_point \<Rightarrow> tagged_trace list \<Rightarrow> connection \<Rightarrow> action list" where
  "afterAnalysis d reasoned c =
     [Write StreamingComplete, Write ReasoningStart] @
     (if \<not> clientDisconnected c
      then (if d = DuringReasoningCall then [Disconnect] else []) @
           [Write (Complete reasoned), End]
      else [Write (Complete []), End])"

text \<open>
  The route from the heartbeat on. With no trace the analysis stage returns its
  sentinel answer without awaiting. A rejected completion call is rethrown by the
  analysis stage as \<^verbatim>\<open>Analysis failed: ...\<close> and lands in the route's \<^verbatim>\<open>catch\<close>,
  which writes an error event.
\<close>

definition analyzeRoute ::
  "disconnect_point \<Rightarrow> analysis_outcome \<Rightarrow> tagged_trace list \<Rightarrow> string list \<Rightarrow> action list"
  where
  "analyzeRoute d analysis reasoned traces =
     (let c0 = \<lparr>clientDisconnected = False, aborted = False\<rparr>
      in Write Heartbeat #
         (if length traces = 0 then afterAnalysis d reasoned c0
          else let (arrived, c1) =
                     (if d = DuringAnalysisCall then ([Disconnect], onClose c0) else ([], c0))
               in arrived @
                  (case analysis of
                     Failed message \<Rightarrow>
                       [Write (Error (''Analysis failed: '' @ message)), End]
                   | Answered fullResponse \<Rightarrow>
                       (let (streamed, c2) = streamWords d 0 c1 (split CHR '' '' fullResponse)
                        in streamed @ afterAnalysis d reasoned c2))))"

text \<open>The events written after the disconnect, in order.\<close>

fun writes :: "action list \<Rightarrow> event list" where
  "writes [] = []"
| "writes (Write e # rest) = e # writes rest"
| "writes (a # rest) = writes rest"

fun writesAfterDisconnect :: "action list \<Rightarrow> event list" where
  "writesAfterDisconnect [] = []"
| "writesAfterDisconnect (Disconnect # rest) = writes rest"
| "writesAfterDisconnect (a # rest) = writesAfterDisconnect rest"


section \<open>The sampler in the words of the specification\<close>

text \<open>
  These definitions follow the specification's description of the sampler, not the
  code; they are compared with \<^const>\<open>selectedTraces\<close> below. Each trace is paired
  with its 1-based position; the seed is the sum of the lengths modulo 100000; the
  generator state after \<open>k\<close> updates is the \<open>k\<close>-fold iterate of
  \<open>state * 9301 + 49297 mod 233280\<close>, and its draw is \<open>state / 233280\<close> as a
  double. Step \<open>k\<close> of the backward loop works at position \<open>n - k\<close> with the draw of
  state \<open>k\<close> and swaps that position with the one the draw selects among the
  positions up to it.
\<close>

definition spec_pairs :: "string list \<Rightarrow> indexed_trace list" where
  "spec_pairs traces =
     map (\<lambda>k. \<lparr>trace = traces ! (k - 1), originalIndex = k\<rparr>) [1..<Suc (length traces)]"

definition spec_seed :: "string list \<Rightarrow> nat" where
  "spec_seed traces = sum_list (map length traces) mod 100000"

definition spec_state :: "nat \<Rightarrow> nat \<Rightarrow> nat" where
  "spec_state seed k = ((\<lambda>state. (state * 9301 + 49297) mod 233280) ^^ k) seed"

definition spec_draw :: "nat \<Rightarrow> real" where
  "spec_draw state = fl (of_nat state / 233280)"

definition spec_step :: "nat \<Rightarrow> nat \<Rightarrow> nat \<Rightarrow> 'a list \<Rightarrow> 'a list" where
  "spec_step seed n k xs =
     (let i = n - k;
          j = nat \<lfloor>fl (spec_draw (spec_state seed k) * of_nat (i + 1))\<rfloor>
      in xs[i := xs ! j, j := xs ! i])"

definition spec_shuffle :: "nat \<Rightarrow> 'a list \<Rightarrow> 'a list" where
  "spec_shuffle seed xs = fold (spec_step seed (length xs)) [1..<length xs] xs"

definition spec_sample :: "string list \<Rightarrow> int \<Rightarrow> indexed_trace list" where
  "spec_sample traces maxCount =
     take (nat (min maxCount (int (length traces))))
       (spec_shuffle (spec_seed traces) (spec_pairs traces))"


section \<open>Properties of the rounding\<close>

lemma round_even_error: "\<bar>of_int (round_even y) - y\<bar> \<le> 1 / 2"
proof -
  have "of_int \<lfloor>y\<rfloor> \<le> y" "y < of_int \<lfloor>y\<rfloor> + 1"
    by linarith+
  then show ?thesis
    by (auto simp: round_even_def Let_def)
qed

lemma pow2_power_int: "pow2 e = power_int 2 e"
  by (simp add: pow2_def power_int_def inverse_eq_divide power_one_over)

lemma pow2_pos: "0 < pow2 e"
  by (simp add: pow2_def)

lemma pow2_diff: "pow2 (a - b) = pow2 a / pow2 b"
  by (simp add: pow2_power_int power_int_diff)

lemma pow2_of_nat: "pow2 (int n) = 2 ^ n"
  by (simp add: pow2_def)

lemma binade_lower:
  assumes "0 < x"
  shows "pow2 (binade x) \<le> x"
proof (cases "1 \<le> x")
  case True
  then have f: "0 < \<lfloor>x\<rfloor>" by linarith
  then have b: "1 \<le> bitlen \<lfloor>x\<rfloor>"
    using bitlen_eq_zero_iff [of "\<lfloor>x\<rfloor>"] bitlen_nonneg [of "\<lfloor>x\<rfloor>"] by linarith
  have "(2::int) ^ nat (bitlen \<lfloor>x\<rfloor> - 1) \<le> \<lfloor>x\<rfloor>"
    using bitlen_bounds [OF f] by simp
  then have "(of_int (2 ^ nat (bitlen \<lfloor>x\<rfloor> - 1)) :: real) \<le> of_int \<lfloor>x\<rfloor>"
    by (simp only: of_int_le_iff)
  also have "\<dots> \<le> x" by simp
  finally show ?thesis using True b by (simp add: binade_def pow2_def)
next
  case False
  define c where "c = \<lceil>1 / x\<rceil>"
  define k where "k = bitlen (c - 1)"
  have "1 < 1 / x" using False assms by simp
  then have c2: "2 \<le> c" unfolding c_def by linarith
  then have k1: "1 \<le> k"
    using bitlen_eq_zero_iff [of "c - 1"] bitlen_nonneg [of "c - 1"] unfolding k_def by linarith
  have "c - 1 < 2 ^ nat k"
    using bitlen_bounds [of "c - 1"] c2 by (simp add: k_def)
  then have "c \<le> 2 ^ nat k" by simp
  then have "(of_int c :: real) \<le> of_int (2 ^ nat k)" by (simp only: of_int_le_iff)
  then have cr: "(of_int c :: real) \<le> 2 ^ nat k" by simp
  have "1 / x \<le> of_int c" unfolding c_def by linarith
  with cr have "1 / x \<le> 2 ^ nat k" by (rule order_trans [rotated])
  then have "1 / 2 ^ nat k \<le> x"
    using assms by (simp add: field_simps)
  then show ?thesis using False k1 by (simp add: binade_def pow2_def c_def k_def)
qed

lemma binade_upper:
  assumes "0 < x"
  shows "x < pow2 (binade x + 1)"
proof (cases "1 \<le> x")
  case True
  then have f: "0 < \<lfloor>x\<rfloor>" by linarith
  then have b: "1 \<le> bitlen \<lfloor>x\<rfloor>"
    using bitlen_eq_zero_iff [of "\<lfloor>x\<rfloor>"] bitlen_nonneg [of "\<lfloor>x\<rfloor>"] by linarith
  have "\<lfloor>x\<rfloor> + 1 \<le> 2 ^ nat (bitlen \<lfloor>x\<rfloor>)"
    using bitlen_bounds [OF f] by simp
  then have "(of_int (\<lfloor>x\<rfloor> + 1) :: real) \<le> of_int (2 ^ nat (bitlen \<lfloor>x\<rfloor>))"
    by (simp only: of_int_le_iff)
  then have "real_of_int \<lfloor>x\<rfloor> + 1 \<le> 2 ^ nat (bitlen \<lfloor>x\<rfloor>)" by simp
  moreover have "x < real_of_int \<lfloor>x\<rfloor> + 1" by linarith
  ultimately have "x < 2 ^ nat (bitlen \<lfloor>x\<rfloor>)" by linarith
  then show ?thesis using True b by (simp add: binade_def pow2_def)
next
  case False
  define c where "c = \<lceil>1 / x\<rceil>"
  define k where "k = bitlen (c - 1)"
  have "1 < 1 / x" using False assms by simp
  then have c2: "2 \<le> c" unfolding c_def by linarith
  then have k1: "1 \<le> k"
    using bitlen_eq_zero_iff [of "c - 1"] bitlen_nonneg [of "c - 1"] unfolding k_def by linarith
  have "2 ^ nat (k - 1) \<le> c - 1"
    using bitlen_bounds [of "c - 1"] c2 by (simp add: k_def)
  then have "(of_int (2 ^ nat (k - 1)) :: real) \<le> of_int (c - 1)"
    by (simp only: of_int_le_iff)
  then have "2 ^ nat (k - 1) \<le> real_of_int c - 1" by simp
  moreover have "real_of_int c - 1 < 1 / x" unfolding c_def by linarith
  ultimately have "2 ^ nat (k - 1) < 1 / x" by linarith
  then have lt: "x < 1 / 2 ^ nat (k - 1)"
    using assms by (simp add: field_simps)
  show ?thesis
  proof (cases "k = 1")
    case True
    then show ?thesis using False lt by (simp add: binade_def pow2_def c_def [symmetric] k_def [symmetric])
  next
    case False
    then have "nat (k - 1) = nat (- (1 - k))" "\<not> 0 \<le> 1 - k" using k1 by simp_all
    then show ?thesis
      using \<open>\<not> 1 \<le> x\<close> lt by (simp add: binade_def pow2_def c_def [symmetric] k_def [symmetric])
  qed
qed

lemma fl_error:
  assumes "0 < x"
  shows "\<bar>fl x - x\<bar> \<le> x / 2 ^ 53"
proof -
  define u where "u = pow2 (binade \<bar>x\<bar> - 52)"
  have u0: "0 < u" by (simp add: u_def pow2_pos)
  have u: "u = pow2 (binade x) / 2 ^ 52"
    using assms pow2_diff [of "binade x" 52] pow2_of_nat [of 52] by (simp add: u_def)
  have ux: "u \<le> x / 2 ^ 52"
    using binade_lower [OF assms] by (simp add: u divide_right_mono)
  have ax: "\<bar>x\<bar> = x" using assms by simp
  have "fl x = of_int (round_even (x / u)) * u"
    using assms by (simp add: fl_def Let_def ax u_def)
  then have "fl x - x = (of_int (round_even (x / u)) - x / u) * u"
    using u0 by (simp add: algebra_simps)
  then have "\<bar>fl x - x\<bar> = \<bar>of_int (round_even (x / u)) - x / u\<bar> * u"
    using u0 by (simp add: abs_mult)
  also have "\<dots> \<le> (1 / 2) * u"
    using round_even_error [of "x / u"] u0 by (intro mult_right_mono) simp_all
  also have "\<dots> \<le> (1 / 2) * (x / 2 ^ 52)"
    using ux by simp
  finally show ?thesis by simp
qed

lemma draw_index_less:
  assumes r: "r < 233280" and n: "0 < n"
  shows "nat \<lfloor>fl (fl (of_nat r / 233280) * of_nat n)\<rfloor> < n"
proof (cases "r = 0")
  case True
  then show ?thesis using n by (simp add: fl_def)
next
  case False
  define q :: real where "q = of_nat r / 233280"
  define d where "d = fl q"
  define z where "z = d * of_nat n"
  define c :: real where "c = 1 + 1 / 2 ^ 53"
  have q0: "0 < q" using False by (simp add: q_def)
  have "r \<le> 233279" using r by simp
  then have "(of_nat r :: real) \<le> of_nat 233279" by (simp only: of_nat_le_iff)
  then have q1: "q \<le> 233279 / 233280" by (simp add: q_def)
  have c0: "0 < c" by (simp add: c_def)
  have dq: "\<bar>d - q\<bar> \<le> q / 2 ^ 53" unfolding d_def using q0 by (rule fl_error)
  have "q / 2 ^ 53 < q" using q0 by (simp add: divide_less_eq)
  with dq have d0: "0 < d" by linarith
  have "d \<le> q + q / 2 ^ 53" using dq by linarith
  also have "\<dots> = q * c" by (simp add: c_def algebra_simps)
  also have "\<dots> \<le> 233279 / 233280 * c" using q1 c0 by (intro mult_right_mono) simp_all
  finally have d1: "d \<le> 233279 / 233280 * c" .
  have z0: "0 < z" using d0 n by (simp add: z_def)
  have zy: "\<bar>fl z - z\<bar> \<le> z / 2 ^ 53" using z0 by (rule fl_error)
  have "fl z \<le> z + z / 2 ^ 53" using zy by linarith
  also have "\<dots> = z * c" by (simp add: c_def algebra_simps)
  also have "\<dots> \<le> (233279 / 233280 * c * of_nat n) * c"
    using d1 c0 n by (intro mult_right_mono) (simp_all add: z_def)
  also have "\<dots> = (233279 / 233280 * c * c) * of_nat n" by simp
  also have "\<dots> < 1 * of_nat n"
    using n by (intro mult_strict_right_mono) (simp_all add: c_def)
  finally have "fl z < of_int (int n)" by simp
  then have "\<lfloor>fl z\<rfloor> < int n" by (simp only: floor_less_iff)
  then show ?thesis using n by (simp add: z_def d_def q_def)
qed

lemma seededRandom_index:
  assumes "seededRandom rng = (rng', r)" and "0 < n"
  shows "nat \<lfloor>fl (r * of_nat n)\<rfloor> < n"
proof -
  have "rng' < 233280" and "r = fl (of_nat rng' / 233280)"
    using assms(1) by (auto simp: seededRandom_def Let_def)
  then show ?thesis using draw_index_less [of rng' n] assms(2) by simp
qed

section \<open>Properties of the shuffle\<close>

lemma shuffleLoop_mset:
  "k < length xs \<Longrightarrow> mset (shuffleLoop k rng xs) = mset xs"
proof (induction k arbitrary: rng xs)
  case 0
  then show ?case by simp
next
  case (Suc k)
  obtain rng' r where sr: "seededRandom rng = (rng', r)"
    by (cases "seededRandom rng")
  define j where "j = nat \<lfloor>fl (r * of_nat (Suc k + 1))\<rfloor>"
  have "j < Suc k + 1" unfolding j_def using sr by (rule seededRandom_index) simp
  then have j: "j < length xs" using Suc.prems by simp
  define ys where "ys = xs[Suc k := xs ! j, j := xs ! Suc k]"
  have ys: "mset ys = mset xs"
    unfolding ys_def using j Suc.prems by (rule mset_swap)
  have "k < length ys" using Suc.prems by (simp add: ys_def)
  then have "mset (shuffleLoop k rng' ys) = mset ys" by (rule Suc.IH)
  then show ?case using ys sr by (simp add: Let_def j_def ys_def)
qed

lemma shuffleArray_mset: "mset (shuffleArray xs seed entropy) = mset xs"
proof (cases xs)
  case Nil
  then show ?thesis by (simp add: shuffleArray_def)
next
  case (Cons a list)
  then have "length xs - 1 < length xs" by simp
  then show ?thesis by (simp only: shuffleArray_def Let_def shuffleLoop_mset)
qed


section \<open>Properties of the sampler\<close>

lemma slice_zero:
  "slice xs 0 fin = take (nat (if fin < 0 then max (int (length xs) + fin) 0 else fin)) xs"
  by (auto simp: slice_def Let_def min_def max_def)

lemma set_slice_subset: "set (slice xs start fin) \<subseteq> set xs"
proof -
  have "set (slice xs start fin) \<subseteq> set (drop (nat (if start < 0 then max (int (length xs) + start) 0 else min start (int (length xs)))) xs)"
    unfolding slice_def Let_def by (rule set_take_subset)
  also have "\<dots> \<subseteq> set xs" by (rule set_drop_subset)
  finally show ?thesis .
qed

lemma shuffleArray_set: "set (shuffleArray xs seed entropy) = set xs"
  using shuffleArray_mset [of xs seed entropy] by (rule mset_eq_setD)

lemma shuffleArray_length: "length (shuffleArray xs seed entropy) = length xs"
  using shuffleArray_mset [of xs seed entropy] by (rule mset_eq_length)

lemma tracesWithIndexes_nth:
  "i < length traces \<Longrightarrow>
   tracesWithIndexes traces ! i = \<lparr>trace = traces ! i, originalIndex = i + 1\<rparr>"
  by (simp add: tracesWithIndexes_def)

lemma tracesWithIndexes_length: "length (tracesWithIndexes traces) = length traces"
  by (simp add: tracesWithIndexes_def)

lemma tracesWithIndexes_mem:
  assumes "t \<in> set (tracesWithIndexes traces)"
  shows "1 \<le> originalIndex t \<and> originalIndex t \<le> length traces \<and>
         traces ! (originalIndex t - 1) = trace t"
proof -
  from assms obtain i where "i < length (tracesWithIndexes traces)"
    and "t = tracesWithIndexes traces ! i"
    by (auto simp: in_set_conv_nth)
  then show ?thesis
    by (simp add: tracesWithIndexes_length tracesWithIndexes_nth)
qed

lemma tracesWithIndexes_indexes:
  "map originalIndex (tracesWithIndexes traces) = [1..<Suc (length traces)]"
  by (rule nth_equalityI)
    (simp_all add: tracesWithIndexes_length tracesWithIndexes_nth del: upt_Suc)

lemma selectedTraces_subset:
  "set (selectedTraces entropy traces maxCount) \<subseteq> set (tracesWithIndexes traces)"
proof (cases "length traces = 0")
  case True
  then show ?thesis by (simp add: selectedTraces_def)
next
  case False
  then show ?thesis
    using set_slice_subset [of "shuffleArray (tracesWithIndexes traces) (Some (contentSeed traces)) entropy" 0]
    by (simp add: selectedTraces_def Let_def shuffleArray_set)
qed

lemma shuffleArray_distinct_indexes:
  "distinct (map originalIndex (shuffleArray (tracesWithIndexes traces) seed entropy))"
proof -
  have "mset (map originalIndex (shuffleArray (tracesWithIndexes traces) seed entropy)) =
        mset (map originalIndex (tracesWithIndexes traces))"
    by (simp only: mset_map shuffleArray_mset)
  then have "distinct (map originalIndex (shuffleArray (tracesWithIndexes traces) seed entropy)) =
             distinct (map originalIndex (tracesWithIndexes traces))"
    by (rule mset_eq_imp_distinct_iff)
  then show ?thesis by (simp add: tracesWithIndexes_indexes)
qed

lemma selectedTraces_distinct:
  "distinct (map originalIndex (selectedTraces entropy traces maxCount))"
proof (cases "length traces = 0")
  case True
  then show ?thesis by (simp add: selectedTraces_def)
next
  case False
  then show ?thesis
    using shuffleArray_distinct_indexes [of traces "Some (contentSeed traces)" entropy]
    by (simp add: selectedTraces_def Let_def slice_zero take_map [symmetric] distinct_take)
qed

lemma find_distinct_key:
  assumes "distinct (map f xs)" and "t \<in> set xs"
  shows "find (\<lambda>u. f u = f t) xs = Some t"
  using assms
proof (induction xs)
  case Nil
  then show ?case by simp
next
  case (Cons x xs)
  then show ?case by (cases "x = t") (auto simp: image_iff)
qed

subsection \<open>The sampler on the corpus \<open>x, y, z\<close>\<close>

lemmas fl_eval = fl_def binade_def pow2_def round_even_def compute_bitlen Let_def

text \<open>
  The rounding on two values: one third, and a draw where the rounded product falls
  just below the integer that exact arithmetic would reach, so that the position drawn
  is 12 and not 13.
\<close>

lemma fl_third: "fl (1 / 3) = 6004799503160661 / 18014398509481984"
  by (simp add: fl_eval)

lemma draw_rounded_down:
  "nat \<lfloor>fl (fl (real 67392 / 233280) * real 45)\<rfloor> = 12 \<and> (67392 * 45) div 233280 = (13::nat)"
  by (simp add: fl_eval)

lemma draw_3: "seededRandom 3 = (77200, 2980777531147139 / 9007199254740992)"
  by (simp add: seededRandom_def fl_eval)

lemma draw_77200: "seededRandom 77200 = (50657, 7823691574887079 / 36028797018963968)"
  by (simp add: seededRandom_def fl_eval)

lemma pick_3: "nat \<lfloor>fl (2980777531147139 / 9007199254740992 * 3)\<rfloor> = 0"
  by (simp add: fl_eval)

lemma pick_2: "nat \<lfloor>fl (7823691574887079 / 36028797018963968 * 2)\<rfloor> = 0"
  by (simp add: fl_eval)

lemma shuffle_xyz: "shuffleArray [a, b, c] (Some 3) entropy = [b, c, a]"
proof -
  have "shuffleLoop (Suc (Suc 0)) 3 [a, b, c] = shuffleLoop (Suc 0) 77200 [c, b, a]"
    using pick_3 by (simp add: draw_3)
  also have "\<dots> = [b, c, a]"
    using pick_2 by (simp add: draw_77200)
  finally show ?thesis by (simp add: shuffleArray_def del: shuffleLoop.simps)
qed

lemma sample_xyz:
  "selectedTraces entropy [''x'', ''y'', ''z''] 3 =
     [\<lparr>trace = ''y'', originalIndex = 2\<rparr>, \<lparr>trace = ''z'', originalIndex = 3\<rparr>,
      \<lparr>trace = ''x'', originalIndex = 1\<rparr>]"
proof -
  have tw: "tracesWithIndexes [''x'', ''y'', ''z''] =
     [\<lparr>trace = ''x'', originalIndex = 1\<rparr>, \<lparr>trace = ''y'', originalIndex = 2\<rparr>,
      \<lparr>trace = ''z'', originalIndex = 3\<rparr>]"
    by (simp add: tracesWithIndexes_def upt_rec [of 0] upt_rec [of 1] upt_rec [of 2])
  have seed: "contentSeed [''x'', ''y'', ''z''] = 3"
    by (simp add: contentSeed_def)
  show ?thesis
    by (simp add: selectedTraces_def tw seed shuffle_xyz slice_def)
qed

section \<open>Index fidelity and distinctness of a sample\<close>

text \<open>
  Claim C5. For every corpus and every bound, every element of the sample has an
  \<open>originalIndex\<close> between 1 and the length of the corpus, and its trace text is the
  corpus entry at that 1-based position, whatever the shuffle did.
\<close>

theorem sample_index_fidelity:
  "\<forall>t \<in> set (selectedTraces entropy traces maxCount).
     1 \<le> originalIndex t \<and> originalIndex t \<le> length traces \<and>
     traces ! (originalIndex t - 1) = trace t"
  using selectedTraces_subset [of entropy traces maxCount] tracesWithIndexes_mem [of _ traces]
  by blast

theorem sample_index_fidelity_witness:
  "\<lparr>trace = ''y'', originalIndex = 2\<rparr> \<in> set (selectedTraces 0 [''x'', ''y'', ''z''] 3) \<and>
   1 \<le> originalIndex \<lparr>trace = ''y'', originalIndex = 2\<rparr> \<and>
   originalIndex \<lparr>trace = ''y'', originalIndex = 2\<rparr> \<le> length [''x'', ''y'', ''z''] \<and>
   [''x'', ''y'', ''z''] ! (originalIndex \<lparr>trace = ''y'', originalIndex = 2\<rparr> - 1) =
     trace \<lparr>trace = ''y'', originalIndex = 2\<rparr>"
proof -
  have m: "\<lparr>trace = ''y'', originalIndex = 2\<rparr> \<in> set (selectedTraces 0 [''x'', ''y'', ''z''] 3)"
    by (simp add: sample_xyz)
  show ?thesis
    using m bspec [OF sample_index_fidelity m] by (rule conjI)
qed

text \<open>
  Claim C10. For every corpus and every bound, the \<open>originalIndex\<close> values of the
  sample are pairwise distinct, so the reasoning caller's lookup
  \<^verbatim>\<open>find(t => t.originalIndex === lineNumber)\<close> with the index of an element of the
  sample finds that element and no other.
\<close>

theorem sample_indexes_distinct:
  "distinct (map originalIndex (selectedTraces entropy traces maxCount)) \<and>
   (\<forall>t \<in> set (selectedTraces entropy traces maxCount).
      find (\<lambda>u. Some (real (originalIndex u)) = Some (real (originalIndex t)))
        (selectedTraces entropy traces maxCount) = Some t)"
proof -
  have d: "distinct (map originalIndex (selectedTraces entropy traces maxCount))"
    by (rule selectedTraces_distinct)
  show ?thesis
    using d find_distinct_key [OF d] by simp
qed

theorem sample_indexes_distinct_witness:
  "\<lparr>trace = ''z'', originalIndex = 3\<rparr> \<in> set (selectedTraces 0 [''x'', ''y'', ''z''] 3) \<and>
   distinct (map originalIndex (selectedTraces 0 [''x'', ''y'', ''z''] 3)) \<and>
   find (\<lambda>u. Some (real (originalIndex u)) = Some 3) (selectedTraces 0 [''x'', ''y'', ''z''] 3)
     = Some \<lparr>trace = ''z'', originalIndex = 3\<rparr>"
proof -
  have m: "\<lparr>trace = ''z'', originalIndex = 3\<rparr> \<in> set (selectedTraces 0 [''x'', ''y'', ''z''] 3)"
    by (simp add: sample_xyz)
  show ?thesis
    using m sample_indexes_distinct [of 0 "[''x'', ''y'', ''z'']" 3] by fastforce
qed


section \<open>The sampler against its description\<close>

lemma tracesWithIndexes_spec: "tracesWithIndexes traces = spec_pairs traces"
  by (rule nth_equalityI)
    (simp_all add: tracesWithIndexes_length tracesWithIndexes_nth spec_pairs_def del: upt_Suc)

lemma length_join_empty: "length (join [] xs) = sum_list (map length xs)"
  by (induction "[] :: string" xs rule: join.induct) simp_all

lemma contentSeed_spec: "contentSeed traces = spec_seed traces"
  by (simp add: contentSeed_def spec_seed_def length_join_empty)

lemma seededRandom_spec:
  "seededRandom (spec_state seed m) = (spec_state seed (Suc m), spec_draw (spec_state seed (Suc m)))"
  by (simp add: seededRandom_def spec_state_def spec_draw_def Let_def)

lemma shuffleLoop_step:
  assumes "n - m = Suc k" and "Suc (m - 1) = m"
  shows "shuffleLoop (Suc k) (spec_state seed (m - 1)) xs =
         shuffleLoop k (spec_state seed m) (spec_step seed n m xs)"
  using assms seededRandom_spec [of seed "m - 1"]
  by (simp add: spec_step_def Let_def)

lemma shuffleLoop_spec:
  "k < n \<Longrightarrow>
   shuffleLoop k (spec_state seed (n - 1 - k)) xs = fold (spec_step seed n) [n - k..<n] xs"
proof (induction k arbitrary: xs)
  case 0
  then show ?case by simp
next
  case (Suc k)
  define m where "m = n - Suc k"
  have m: "n - m = Suc k" "0 < m" "Suc (m - 1) = m" "m - 1 = n - 1 - Suc k" "m = n - 1 - k"
    "Suc m = n - k" "m < n"
    using Suc.prems by (simp_all add: m_def)
  have k: "k < n" using Suc.prems by simp
  have "[m..<n] = m # [Suc m..<n]"
    using m(7) by (rule upt_conv_Cons)
  then have up: "[n - Suc k..<n] = m # [n - k..<n]"
    by (simp only: m(6)) (simp only: m_def)
  have "shuffleLoop (Suc k) (spec_state seed (n - 1 - Suc k)) xs =
        shuffleLoop k (spec_state seed (n - 1 - k)) (spec_step seed n m xs)"
    using shuffleLoop_step [OF m(1) m(3), of seed xs] by (simp only: m(4) [symmetric] m(5) [symmetric])
  also have "\<dots> = fold (spec_step seed n) [n - k..<n] (spec_step seed n m xs)"
    using k by (rule Suc.IH)
  also have "\<dots> = fold (spec_step seed n) [n - Suc k..<n] xs"
    by (simp only: up fold_simps)
  finally show ?case .
qed

lemma shuffleArray_spec: "shuffleArray xs (Some seed) entropy = spec_shuffle seed xs"
proof (cases xs)
  case Nil
  then show ?thesis by (simp add: shuffleArray_def spec_shuffle_def)
next
  case (Cons a list)
  define n where "n = length xs"
  have n: "n - 1 < n" using Cons by (simp add: n_def)
  have s0: "spec_state seed (n - 1 - (n - 1)) = seed" by (simp add: spec_state_def)
  have "shuffleLoop (n - 1) seed xs = fold (spec_step seed n) [n - (n - 1)..<n] xs"
    using shuffleLoop_spec [OF n, of seed xs] by (simp only: s0)
  moreover have "n - (n - 1) = 1" using Cons by (simp add: n_def)
  ultimately show ?thesis by (simp add: shuffleArray_def spec_shuffle_def n_def)
qed

lemma selectedTraces_spec:
  assumes "0 \<le> maxCount"
  shows "selectedTraces entropy traces maxCount = spec_sample traces maxCount"
proof (cases "length traces = 0")
  case True
  then show ?thesis by (simp add: selectedTraces_def spec_sample_def)
next
  case False
  then show ?thesis
    using assms
    by (simp add: selectedTraces_def spec_sample_def Let_def slice_zero shuffleArray_spec
        tracesWithIndexes_spec contentSeed_spec)
qed

lemma selectedTraces_entropy:
  "selectedTraces entropy traces maxCount = selectedTraces entropy' traces maxCount"
  by (simp add: selectedTraces_def shuffleArray_def)

text \<open>
  Claim C1, as the code has it. The sample does not depend on the ambient random
  value, so it is a function of the trace texts and the bound alone; and for every
  list of traces and every bound from 0 on it is the sample of the description:
  positions paired 1-based, seed the sum of the lengths modulo 100000, backward swap
  loop driven by the generator, first \<open>min maxCount (length traces)\<close> elements kept.
\<close>

theorem sampler_matches_reference:
  "selectedTraces entropy traces maxCount = selectedTraces entropy' traces maxCount \<and>
   (0 \<le> maxCount \<longrightarrow> selectedTraces entropy traces maxCount = spec_sample traces maxCount)"
  using selectedTraces_entropy [of entropy traces maxCount entropy']
    selectedTraces_spec [of maxCount entropy traces] by simp

theorem sampler_matches_reference_witness:
  "(0::int) \<le> 3 \<and>
   selectedTraces 0 [''x'', ''y'', ''z''] 3 = selectedTraces 1 [''x'', ''y'', ''z''] 3 \<and>
   spec_sample [''x'', ''y'', ''z''] 3 =
     [\<lparr>trace = ''y'', originalIndex = 2\<rparr>, \<lparr>trace = ''z'', originalIndex = 3\<rparr>,
      \<lparr>trace = ''x'', originalIndex = 1\<rparr>]"
  using sampler_matches_reference [of 0 "[''x'', ''y'', ''z'']" 3 1] sample_xyz [of 0]
  by (simp del: One_nat_def) metis

text \<open>
  Claim C1 as stated, for every bound, fails at a negative one: \<^verbatim>\<open>slice(0, -1)\<close>
  keeps all elements but the last, where the description keeps the first
  \<open>min (-1) 3\<close> elements, that is none.
\<close>

theorem sampler_negative_bound_counterexample:
  "selectedTraces 0 [''x'', ''y'', ''z''] (- 1) =
     [\<lparr>trace = ''y'', originalIndex = 2\<rparr>, \<lparr>trace = ''z'', originalIndex = 3\<rparr>] \<and>
   spec_sample [''x'', ''y'', ''z''] (- 1) = [] \<and>
   selectedTraces 0 [''x'', ''y'', ''z''] (- 1) \<noteq> spec_sample [''x'', ''y'', ''z''] (- 1)"
proof -
  have tw: "tracesWithIndexes [''x'', ''y'', ''z''] =
     [\<lparr>trace = ''x'', originalIndex = 1\<rparr>, \<lparr>trace = ''y'', originalIndex = 2\<rparr>,
      \<lparr>trace = ''z'', originalIndex = 3\<rparr>]"
    by (simp add: tracesWithIndexes_def upt_rec [of 0] upt_rec [of 1] upt_rec [of 2])
  have seed: "contentSeed [''x'', ''y'', ''z''] = 3"
    by (simp add: contentSeed_def)
  have a: "selectedTraces 0 [''x'', ''y'', ''z''] (- 1) =
     [\<lparr>trace = ''y'', originalIndex = 2\<rparr>, \<lparr>trace = ''z'', originalIndex = 3\<rparr>]"
    by (simp add: selectedTraces_def tw seed shuffle_xyz slice_def)
  have b: "spec_sample [''x'', ''y'', ''z''] (- 1) = []"
    by (simp add: spec_sample_def)
  show ?thesis by (simp add: a b)
qed


section \<open>The fallback sample of the reasoning caller\<close>

lemma slice_take: "0 \<le> k \<Longrightarrow> slice xs 0 k = take (nat k) xs"
  by (simp add: slice_zero)

lemma fallbackTraces_eq:
  "fallbackTraces entropy allTraces =
     shuffleArray (tracesWithIndexes (take 250 allTraces))
       (Some (contentSeed (take 250 allTraces))) entropy"
  by (simp add: fallbackTraces_def Let_def slice_take)

lemma fallbackTraces_take:
  "fallbackTraces entropy (take 250 allTraces) = fallbackTraces entropy allTraces"
  by (simp add: fallbackTraces_eq)

lemma tracesWithIndexes_take_mem:
  assumes "t \<in> set (tracesWithIndexes (take k traces))"
  shows "1 \<le> originalIndex t \<and> originalIndex t \<le> k \<and> originalIndex t \<le> length traces \<and>
         traces ! (originalIndex t - 1) = trace t"
  using tracesWithIndexes_mem [OF assms] by auto

text \<open>
  Claim C6. When the reasoning caller is invoked without pre-selected traces (none, or
  an empty list), its sample is the shuffle of the first 250 entries of the corpus
  with their positions: it is unchanged when the corpus is cut to its first 250
  entries, it has \<open>min 250 (length allTraces)\<close> elements, and every element carries
  an index of at most 250 and the corpus entry at that index. For a corpus of 500
  traces only the first 250 are considered.
\<close>

theorem fallback_sample_cap:
  assumes "preSelectedTraces = None \<or> preSelectedTraces = Some []"
  shows "tracesForReasoning entropy allTraces preSelectedTraces =
           shuffleArray (tracesWithIndexes (take 250 allTraces))
             (Some (contentSeed (take 250 allTraces))) entropy \<and>
         tracesForReasoning entropy allTraces preSelectedTraces =
           tracesForReasoning entropy (take 250 allTraces) preSelectedTraces \<and>
         length (tracesForReasoning entropy allTraces preSelectedTraces) =
           min 250 (length allTraces) \<and>
         (\<forall>t \<in> set (tracesForReasoning entropy allTraces preSelectedTraces).
            1 \<le> originalIndex t \<and> originalIndex t \<le> 250 \<and>
            allTraces ! (originalIndex t - 1) = trace t)"
proof -
  have eq: "tracesForReasoning entropy allTraces preSelectedTraces =
            fallbackTraces entropy allTraces"
    using assms by (auto simp: tracesForReasoning_def)
  have eq': "tracesForReasoning entropy (take 250 allTraces) preSelectedTraces =
             fallbackTraces entropy (take 250 allTraces)"
    using assms by (auto simp: tracesForReasoning_def)
  have len: "length (fallbackTraces entropy allTraces) = min 250 (length allTraces)"
    by (simp add: fallbackTraces_eq shuffleArray_length tracesWithIndexes_length min.commute)
  have mem: "\<forall>t \<in> set (fallbackTraces entropy allTraces).
      1 \<le> originalIndex t \<and> originalIndex t \<le> 250 \<and> allTraces ! (originalIndex t - 1) = trace t"
    using tracesWithIndexes_take_mem [of _ 250 allTraces]
    by (simp add: fallbackTraces_eq shuffleArray_set)
  show ?thesis
    unfolding eq eq' fallbackTraces_take
    using len mem by (simp add: fallbackTraces_eq)
qed

theorem fallback_sample_cap_witness:
  "tracesForReasoning 0 (replicate 500 ''t'') None =
     tracesForReasoning 0 (take 250 (replicate 500 ''t'')) None \<and>
   length (tracesForReasoning 0 (replicate 500 ''t'') None) = 250"
proof -
  have "None = None \<or> None = Some ([] :: indexed_trace list)" by simp
  from fallback_sample_cap [OF this, of 0 "replicate 500 ''t''"]
  have a: "tracesForReasoning 0 (replicate 500 ''t'') None =
           tracesForReasoning 0 (take 250 (replicate 500 ''t'')) None"
    and b: "length (tracesForReasoning 0 (replicate 500 ''t'') None) =
            min 250 (length (replicate 500 ''t''))"
    by blast+
  from b have "length (tracesForReasoning 0 (replicate 500 ''t'') None) = 250" by simp
  with a show ?thesis by (rule conjI)
qed

section \<open>The line mapping of the reasoning caller\<close>

lemma find_key_present:
  assumes "k \<in> f ` set xs"
  shows "\<exists>t \<in> set xs. f t = k \<and> find (\<lambda>u. f u = k) xs = Some t"
  using assms by (induction xs) auto

lemma find_key_absent:
  assumes "k \<notin> f ` set xs"
  shows "find (\<lambda>u. f u = k) xs = None"
  using assms by (induction xs) auto

lemma mapSelected_items:
  "mapSelected sample (map Some items) = Inr (map (mapItem sample) items)"
  by (induction items) simp_all

lemma mapSelected_null:
  "None \<in> set items \<Longrightarrow> \<exists>e. mapSelected sample items = Inl e"
proof (induction items)
  case Nil
  then show ?case by simp
next
  case (Cons a items)
  then show ?case by (cases a) (auto split: sum.splits)
qed

text \<open>
  Claim C3. For every sample and every returned item, the line number is looked up
  against the \<open>originalIndex\<close> values of the sample, not against array positions: a
  line number that is the index of some element of the sample yields the trace text of
  an element with that index (of the element itself when the indexes are distinct, as
  they are in a sample of the sampler). A line number absent from the sample is dropped
  in the specification's sense: the item carries the empty trace text. No error is
  raised: the mapping of a list of items returns the list of the mapped items, and
  the reasoning caller, given a sample and a response with these items, returns that
  list for the sample it was given. Given the sample \<open>(a, 1), (b, 2)\<close>, line 2
  yields \<open>b\<close>, also when \<open>b\<close> stands first in the array, and line 99 yields the
  empty text.
\<close>

theorem reasoning_line_mapping:
  "(line_number item = Some (real k) \<and> k \<in> originalIndex ` set sample \<longrightarrow>
      (\<exists>t \<in> set sample. originalIndex t = k \<and> trace_text (mapItem sample item) = trace t)) \<and>
   (line_number item = Some (real (originalIndex t)) \<and> t \<in> set sample \<and>
    distinct (map originalIndex sample) \<longrightarrow>
      trace_text (mapItem sample item) = trace t) \<and>
   (line_number item = Some n \<and> n \<notin> (\<lambda>t. real (originalIndex t)) ` set sample \<longrightarrow>
      trace_text (mapItem sample item) = []) \<and>
   mapSelected sample (map Some items) = Inr (map (mapItem sample) items) \<and>
   (\<not> signalAborted \<and> items \<noteq> [] \<and>
    provider (reasoningRequest dflt customPrompt chatHistory userQuery aiResponse
        (tracesForReasoning entropy allTraces preSelectedTraces))
      = FunctionCall (Parsed (Some (map Some items))) \<longrightarrow>
    selectRelevantTraces entropy dflt provider allTraces userQuery aiResponse customPrompt
      chatHistory signalAborted preSelectedTraces =
      Inr (map (mapItem (tracesForReasoning entropy allTraces preSelectedTraces)) items)) \<and>
   (sample \<noteq> [] \<and> \<not> signalAborted \<and> items \<noteq> [] \<and>
    provider (reasoningRequest dflt customPrompt chatHistory userQuery aiResponse sample)
      = FunctionCall (Parsed (Some (map Some items))) \<longrightarrow>
    selectRelevantTraces entropy dflt provider allTraces userQuery aiResponse customPrompt
      chatHistory signalAborted (Some sample) =
      Inr (map (mapItem sample) items))"
proof -
  have a: "\<exists>t \<in> set sample. originalIndex t = k \<and> trace_text (mapItem sample item) = trace t"
    if "line_number item = Some (real k)" "k \<in> originalIndex ` set sample"
    using find_key_present [OF that(2)] that(1) by (auto simp: mapItem_def Let_def)
  have b: "trace_text (mapItem sample item) = trace t"
    if "line_number item = Some (real (originalIndex t))" "t \<in> set sample"
      "distinct (map originalIndex sample)"
    using find_distinct_key [OF that(3) that(2)] that(1) by (simp add: mapItem_def Let_def)
  have c: "trace_text (mapItem sample item) = []"
    if "line_number item = Some n" "n \<notin> (\<lambda>t. real (originalIndex t)) ` set sample"
    using find_key_absent [OF that(2)] by (simp add: mapItem_def Let_def that(1))
  have d: "selectRelevantTraces entropy dflt provider allTraces userQuery aiResponse customPrompt
      chatHistory signalAborted preSelectedTraces =
      Inr (map (mapItem (tracesForReasoning entropy allTraces preSelectedTraces)) items)"
    if "\<not> signalAborted" "items \<noteq> []"
      "provider (reasoningRequest dflt customPrompt chatHistory userQuery aiResponse
        (tracesForReasoning entropy allTraces preSelectedTraces))
      = FunctionCall (Parsed (Some (map Some items)))"
    using that
    by (simp add: selectRelevantTraces_def Let_def processResponse_def mapSelected_items)
  have e: "selectRelevantTraces entropy dflt provider allTraces userQuery aiResponse customPrompt
      chatHistory signalAborted (Some sample) =
      Inr (map (mapItem sample) items)"
    if "sample \<noteq> []" "\<not> signalAborted" "items \<noteq> []"
      "provider (reasoningRequest dflt customPrompt chatHistory userQuery aiResponse sample)
      = FunctionCall (Parsed (Some (map Some items)))"
    using that
    by (simp add: selectRelevantTraces_def tracesForReasoning_def Let_def processResponse_def
        mapSelected_items)
  show ?thesis
    using a b c d e mapSelected_items [of sample items] by blast
qed

theorem reasoning_line_mapping_witness:
  "selectRelevantTraces 0 ''{traces}''
     (\<lambda>prompt. FunctionCall (Parsed (Some
        [Some \<lparr>line_number = Some 2, item_tags = Some [''Category A'']\<rparr>,
         Some \<lparr>line_number = Some 99, item_tags = None\<rparr>])))
     [''x'', ''y'', ''z''] ''what happened'' ''answer'' None None False
     (Some [\<lparr>trace = ''a'', originalIndex = 1\<rparr>, \<lparr>trace = ''b'', originalIndex = 2\<rparr>]) =
     Inr [\<lparr>trace_text = ''b'', tags = [''Category A'']\<rparr>, \<lparr>trace_text = [], tags = []\<rparr>] \<and>
   trace_text (mapItem [\<lparr>trace = ''b'', originalIndex = 2\<rparr>, \<lparr>trace = ''a'', originalIndex = 1\<rparr>]
      \<lparr>line_number = Some 2, item_tags = None\<rparr>) = ''b'' \<and>
   trace_text (mapItem [\<lparr>trace = ''a'', originalIndex = 1\<rparr>, \<lparr>trace = ''b'', originalIndex = 2\<rparr>]
      \<lparr>line_number = Some 99, item_tags = None\<rparr>) = []"
proof -
  let ?S = "[\<lparr>trace = ''a'', originalIndex = 1\<rparr>, \<lparr>trace = ''b'', originalIndex = 2\<rparr>]"
  let ?R = "[\<lparr>trace = ''b'', originalIndex = 2\<rparr>, \<lparr>trace = ''a'', originalIndex = 1\<rparr>]"
  let ?i2 = "\<lparr>line_number = Some 2, item_tags = Some [''Category A'']\<rparr>"
  let ?j2 = "\<lparr>line_number = Some 2, item_tags = None\<rparr>"
  let ?i99 = "\<lparr>line_number = Some 99, item_tags = None\<rparr>"
  let ?provider = "\<lambda>prompt :: string. FunctionCall (Parsed (Some [Some ?i2, Some ?i99]))"
  note caller = reasoning_line_mapping [where sample = ?S and items = "[?i2, ?i99]"
      and provider = ?provider and signalAborted = False and entropy = 0
      and dflt = "''{traces}''" and allTraces = "[''x'', ''y'', ''z'']"
      and userQuery = "''what happened''" and aiResponse = "''answer''"
      and customPrompt = None and chatHistory = None,
      THEN conjunct2, THEN conjunct2, THEN conjunct2, THEN conjunct2, THEN conjunct2]
  have given: "?S \<noteq> [] \<and> \<not> False \<and> [?i2, ?i99] \<noteq> [] \<and>
      ?provider (reasoningRequest ''{traces}'' None None ''what happened'' ''answer'' ?S) =
        FunctionCall (Parsed (Some (map Some [?i2, ?i99])))"
    by simp
  have run: "selectRelevantTraces 0 ''{traces}'' ?provider [''x'', ''y'', ''z''] ''what happened''
      ''answer'' None None False (Some ?S) = Inr (map (mapItem ?S) [?i2, ?i99])"
    using caller given by (rule mp)
  have p: "trace_text (mapItem ?R ?j2) = ''b''"
    using reasoning_line_mapping [where item = ?j2 and k = 2 and sample = ?R
        and t = "\<lparr>trace = ''b'', originalIndex = 2\<rparr>" and n = 2]
    by simp
  have q: "trace_text (mapItem ?S ?i99) = []"
    using reasoning_line_mapping [where item = ?i99 and k = 99 and sample = ?S
        and t = "\<lparr>trace = ''b'', originalIndex = 2\<rparr>" and n = 99]
    by simp
  have val: "map (mapItem ?S) [?i2, ?i99] =
     [\<lparr>trace_text = ''b'', tags = [''Category A'']\<rparr>, \<lparr>trace_text = [], tags = []\<rparr>]"
    by (simp add: mapItem_def)
  show ?thesis using run p q by (simp only: val)
qed

section \<open>Failures of the reasoning stage\<close>

lemma processResponse_failures:
  "processResponse sample Unparsable = []"
  "processResponse sample (Parsed None) = []"
  "None \<in> set items \<Longrightarrow> processResponse sample (Parsed (Some items)) = []"
  using mapSelected_null [of items sample]
  by (auto simp: processResponse_def split: sum.splits)

text \<open>
  Claim C7. Every invocation of the reasoning caller returns a list, never a
  propagated exception. When the completion call fails, or carries no function call,
  or its payload does not parse, or the payload lacks \<^verbatim>\<open>selected_traces\<close>, or an
  item of it is \<^verbatim>\<open>null\<close> so that the mapping throws, the list returned is empty.
\<close>

theorem reasoning_failures_nonfatal:
  "(\<exists>tracesWithTags.
      selectRelevantTraces entropy dflt provider allTraces userQuery aiResponse customPrompt
        chatHistory signalAborted preSelectedTraces = Inr tracesWithTags) \<and>
   (provider (reasoningRequest dflt customPrompt chatHistory userQuery aiResponse
        (tracesForReasoning entropy allTraces preSelectedTraces))
      \<in> {Rejected, NoFunctionCall, FunctionCall Unparsable, FunctionCall (Parsed None)} \<longrightarrow>
    selectRelevantTraces entropy dflt provider allTraces userQuery aiResponse customPrompt
      chatHistory signalAborted preSelectedTraces = Inr []) \<and>
   (provider (reasoningRequest dflt customPrompt chatHistory userQuery aiResponse
        (tracesForReasoning entropy allTraces preSelectedTraces))
      = FunctionCall (Parsed (Some items)) \<and> None \<in> set items \<longrightarrow>
    selectRelevantTraces entropy dflt provider allTraces userQuery aiResponse customPrompt
      chatHistory signalAborted preSelectedTraces = Inr [])"
proof -
  let ?r = "provider (reasoningRequest dflt customPrompt chatHistory userQuery aiResponse
        (tracesForReasoning entropy allTraces preSelectedTraces))"
  let ?s = "selectRelevantTraces entropy dflt provider allTraces userQuery aiResponse customPrompt
        chatHistory signalAborted preSelectedTraces"
  have a: "\<exists>tracesWithTags. ?s = Inr tracesWithTags"
    by (cases ?r) (simp_all add: selectRelevantTraces_def Let_def)
  have b: "?s = Inr []"
    if "?r \<in> {Rejected, NoFunctionCall, FunctionCall Unparsable, FunctionCall (Parsed None)}"
    using that by (auto simp: selectRelevantTraces_def Let_def processResponse_failures)
  have c: "?s = Inr []" if "?r = FunctionCall (Parsed (Some items))" "None \<in> set items"
    using that by (simp add: selectRelevantTraces_def Let_def processResponse_failures)
  show ?thesis using a b c by blast
qed

theorem reasoning_failures_nonfatal_witness:
  "selectRelevantTraces 0 ''{traces}'' (\<lambda>prompt. Rejected) [''x''] ''q'' ''a'' None None False
     None = Inr [] \<and>
   selectRelevantTraces 0 ''{traces}'' (\<lambda>prompt. FunctionCall Unparsable) [''x''] ''q'' ''a'' None
     None False None = Inr [] \<and>
   selectRelevantTraces 0 ''{traces}''
     (\<lambda>prompt. FunctionCall (Parsed (Some [Some \<lparr>line_number = Some 1, item_tags = None\<rparr>, None])))
     [''x''] ''q'' ''a'' None None False None = Inr []"
proof -
  have a: "selectRelevantTraces 0 ''{traces}'' (\<lambda>prompt. Rejected) [''x''] ''q'' ''a'' None None
      False None = Inr []"
    using reasoning_failures_nonfatal [of 0 "''{traces}''" "\<lambda>prompt. Rejected" "[''x'']" "''q''"
        "''a''" None None False None "[]"]
    by simp
  have b: "selectRelevantTraces 0 ''{traces}'' (\<lambda>prompt. FunctionCall Unparsable) [''x''] ''q''
      ''a'' None None False None = Inr []"
    using reasoning_failures_nonfatal [of 0 "''{traces}''" "\<lambda>prompt. FunctionCall Unparsable"
        "[''x'']" "''q''" "''a''" None None False None "[]"]
    by simp
  have c: "selectRelevantTraces 0 ''{traces}''
     (\<lambda>prompt. FunctionCall (Parsed (Some [Some \<lparr>line_number = Some 1, item_tags = None\<rparr>, None])))
     [''x''] ''q'' ''a'' None None False None = Inr []"
    using reasoning_failures_nonfatal [of 0 "''{traces}''"
        "\<lambda>prompt. FunctionCall (Parsed (Some [Some \<lparr>line_number = Some 1, item_tags = None\<rparr>, None]))"
        "[''x'']" "''q''" "''a''" None None False None
        "[Some \<lparr>line_number = Some 1, item_tags = None\<rparr>, None]"]
    by simp
  show ?thesis using a b c by simp
qed

section \<open>Size governance of the reasoning prompt\<close>

lemma sliceFrom_tail:
  "0 < k \<Longrightarrow> k \<le> length xs \<Longrightarrow> sliceFrom xs (- int k) = drop (length xs - k) xs"
  by (simp add: sliceFrom_def slice_def Let_def nat_diff_distrib' max_def)

lemma prefix_join_hd: "xs \<noteq> [] \<Longrightarrow> prefix (hd xs) (join sep xs)"
  by (induction sep xs rule: join.induct) simp_all

text \<open>
  Claim C8. The reasoning prompt is rendered from the conversation context cut to its
  last 2000 characters when it is longer (the tail is kept) and left alone otherwise,
  and from trace lines in which a trace longer than 200 characters is cut to its first
  200 characters followed by three dots. The analysis prompt is rendered from the
  whole conversation (its first message and the final question are both there) and
  from the whole trace texts.
\<close>

theorem reasoning_size_governance:
  "(2000 < length (reasoningFullConversation chatHistory userQuery aiResponse) \<longrightarrow>
      reasoningConversation chatHistory userQuery aiResponse =
        drop (length (reasoningFullConversation chatHistory userQuery aiResponse) - 2000)
          (reasoningFullConversation chatHistory userQuery aiResponse)) \<and>
   (length (reasoningFullConversation chatHistory userQuery aiResponse) \<le> 2000 \<longrightarrow>
      reasoningConversation chatHistory userQuery aiResponse =
        reasoningFullConversation chatHistory userQuery aiResponse) \<and>
   length (reasoningConversation chatHistory userQuery aiResponse) \<le> 2000 \<and>
   (200 < length tr \<longrightarrow> truncatedTrace tr = take 200 tr @ ''...'') \<and>
   (length tr \<le> 200 \<longrightarrow> truncatedTrace tr = tr) \<and>
   reasoningRequest dflt customPrompt chatHistory userQuery aiResponse sample =
     replace
       (replace (orDefault customPrompt dflt) ''{conversation}''
          (reasoningConversation chatHistory userQuery aiResponse))
       ''{traces}''
       (join nl (map (\<lambda>t. toString (originalIndex t) @ '': '' @ truncatedTrace (trace t)) sample)) \<and>
   analysisRequest dflt mark datasetsSection customPrompt chatHistory userQuery sample totalCount =
     replace
       (replace
          (replace (orDefault customPrompt dflt) ''{conversation}''
             (analysisConversation chatHistory userQuery))
          ''{traces}'' (tracesSection mark sample totalCount))
       ''{datasets}'' datasetsSection \<and>
   suffix (''User: '' @ userQuery) (analysisConversation chatHistory userQuery) \<and>
   (chatHistory = Some (msg # msgs) \<longrightarrow>
      prefix (formatMessage msg) (analysisConversation chatHistory userQuery)) \<and>
   prefix (join nl (map (\<lambda>t. toString (originalIndex t) @ '': '' @ trace t) sample))
     (tracesSection mark sample totalCount)"
proof -
  let ?full = "reasoningFullConversation chatHistory userQuery aiResponse"
  have a: "reasoningConversation chatHistory userQuery aiResponse = drop (length ?full - 2000) ?full"
    if "2000 < length ?full"
    using that sliceFrom_tail [of 2000 ?full] by (simp add: reasoningConversation_def Let_def)
  have b: "reasoningConversation chatHistory userQuery aiResponse = ?full"
    if "length ?full \<le> 2000"
    using that by (simp add: reasoningConversation_def Let_def)
  have c: "length (reasoningConversation chatHistory userQuery aiResponse) \<le> 2000"
    using a b by (cases "2000 < length ?full") simp_all
  have d: "truncatedTrace tr = take 200 tr @ ''...''" if "200 < length tr"
    using that by (simp add: truncatedTrace_def slice_take)
  have e: "truncatedTrace tr = tr" if "length tr \<le> 200"
    using that by (simp add: truncatedTrace_def)
  have f: "suffix (''User: '' @ userQuery) (analysisConversation chatHistory userQuery)"
    by (auto simp: analysisConversation_def suffix_def split: option.splits)
  have g: "prefix (formatMessage msg) (analysisConversation chatHistory userQuery)"
    if "chatHistory = Some (msg # msgs)"
    using that prefix_join_hd [of "map formatMessage (msg # msgs)" "nl @ nl"]
    by (simp add: analysisConversation_def prefix_def) (metis append.assoc)
  have h: "prefix (join nl (map (\<lambda>t. toString (originalIndex t) @ '': '' @ trace t) sample))
     (tracesSection mark sample totalCount)"
    by (simp add: tracesSection_def traceLine_def [abs_def])
  show ?thesis
    using a b c d e f g h
    by (simp add: reasoningRequest_def reasoningPrompt_def optimizedTraces_def
        analysisRequest_def finalPrompt_def)
qed

theorem reasoning_size_governance_witness:
  "2000 < length (reasoningFullConversation None (replicate 2000 CHR ''q'') ''ok'') \<and>
   reasoningConversation None (replicate 2000 CHR ''q'') ''ok'' =
     drop 14 (reasoningFullConversation None (replicate 2000 CHR ''q'') ''ok'') \<and>
   length (reasoningConversation None (replicate 2000 CHR ''q'') ''ok'') = 2000 \<and>
   truncatedTrace (replicate 201 CHR ''a'') = replicate 200 CHR ''a'' @ ''...'' \<and>
   truncatedTrace ''short'' = ''short''"
proof -
  have len: "length (reasoningFullConversation None (replicate 2000 CHR ''q'') ''ok'') = 2014"
    by (simp add: reasoningFullConversation_def nl_def)
  note long = reasoning_size_governance [where chatHistory = None
      and userQuery = "replicate 2000 CHR ''q''" and aiResponse = "''ok''"
      and tr = "replicate 201 CHR ''a''"]
  note short = reasoning_size_governance [where chatHistory = None
      and userQuery = "replicate 2000 CHR ''q''" and aiResponse = "''ok''"
      and tr = "''short''"]
  have a: "reasoningConversation None (replicate 2000 CHR ''q'') ''ok'' =
     drop 14 (reasoningFullConversation None (replicate 2000 CHR ''q'') ''ok'')"
    using long len by simp
  have b: "length (reasoningConversation None (replicate 2000 CHR ''q'') ''ok'') = 2000"
    using len by (simp add: a)
  have c: "truncatedTrace (replicate 201 CHR ''a'') = replicate 200 CHR ''a'' @ ''...''"
    using long by simp
  have d: "truncatedTrace ''short'' = ''short''"
    using short by simp
  show ?thesis using len a b c d by simp
qed

section \<open>Results of the batch ranking caller\<close>
















section \<open>Events written after a disconnect\<close>

text \<open>
  Claim C2, evaluated on the code. The client disconnects during the pause after the
  first chunk of the answer \<open>a b c\<close>: the word loop stops, and the route still writes
  the two stage markers and the final event. The client disconnects during the
  analysis completion call and the aborted call rejects: the route writes an error
  event.
\<close>

theorem route_writes_after_disconnect:
  "analyzeRoute (AfterChunk 0) (Answered ''a b c'') [] [''x''] =
     [Write Heartbeat, Write (Content ''a''), Disconnect,
      Write StreamingComplete, Write ReasoningStart, Write (Complete []), End] \<and>
   writesAfterDisconnect (analyzeRoute (AfterChunk 0) (Answered ''a b c'') [] [''x'']) =
     [StreamingComplete, ReasoningStart, Complete []] \<and>
   writesAfterDisconnect
     (analyzeRoute DuringAnalysisCall (Failed ''Request was aborted.'') [] [''x'']) =
     [Error ''Analysis failed: Request was aborted.'']"
  by (simp add: analyzeRoute_def afterAnalysis_def onClose_def Let_def)

section \<open>Rendering at templates and bindings that are not substituted literally\<close>

text \<open>
  Claim C4, evaluated on the code. Of two occurrences of a placeholder only the first
  is replaced; a bound string containing \<^verbatim>\<open>$&\<close> is not inserted literally; and a
  conversation that contains the text \<^verbatim>\<open>{traces}\<close> receives the traces, while the
  placeholder of the template stays.
\<close>

theorem render_not_literal:
  "reasoningPrompt ''{traces} / {traces}'' ''c'' ''1: a'' = ''1: a / {traces}'' \<and>
   reasoningPrompt ''C: {conversation} T: {traces}'' ''why $& here'' ''1: a'' =
     ''C: why {conversation} here T: 1: a'' \<and>
   reasoningPrompt ''C: {conversation} T: {traces}'' ''what is {traces}'' ''1: a'' =
     ''C: what is 1: a T: {traces}''"
  by (simp add: reasoningPrompt_def replace_def)

end
